theory Spec2Isabelle
  imports Main "HOL-Library.Multiset" "HOL-Library.Option_ord"
begin

section \<open>Data model (shared/schema.ts)\<close>

text \<open>
  The three tables of \<^verbatim>\<open>shared/schema.ts\<close>. A row type is a record whose fields are
  the columns; a nullable column is an \<open>option\<close>; \<^verbatim>\<open>serial\<close> and \<^verbatim>\<open>integer\<close> columns
  are \<open>int\<close>; a \<^verbatim>\<open>timestamp\<close> is the number of milliseconds since the epoch, an
  \<open>int\<close>. The columns \<^verbatim>\<open>id\<close> and \<^verbatim>\<open>createdAt\<close> occur in every table and carry
  the table's name as a prefix here.
\<close>

datatype task_status = todo | inprogress | completed
datatype task_priority = low | medium | high
datatype share_permission = view | edit

record user =
  user_id :: int
  firebaseUid :: string
  email :: string
  displayName :: "string option"
  user_createdAt :: int

record task =
  task_id :: int
  title :: string
  description :: "string option"
  status :: task_status
  priority :: task_priority
  dueDate :: "int option"
  task_createdAt :: int
  updatedAt :: int
  ownerId :: int

record taskShare =
  share_id :: int
  taskId :: int
  sharedWithId :: int
  permission :: share_permission
  share_createdAt :: int

text \<open>
  \<^verbatim>\<open>TaskShare & { sharedWith: User }\<close> and
  \<^verbatim>\<open>TaskWithOwner = Task & { owner: User; shares: ... }\<close>. Both joined users come from
  a left join followed by a non-null assertion \<^verbatim>\<open>users!\<close>, which checks nothing at run
  time: the value is \<^verbatim>\<open>null\<close> (here \<open>None\<close>) when no user row matches.
\<close>

record shareWithUser = taskShare +
  sharedWith :: "user option"

record TaskWithOwner = task +
  owner :: "user option"
  shares :: "shareWithUser list"

text \<open>
  \<^verbatim>\<open>InsertUser\<close>, \<^verbatim>\<open>InsertTask\<close>, \<^verbatim>\<open>InsertTaskShare\<close>: the insert schemas omit
  \<^verbatim>\<open>id\<close> and the timestamps; a column with a default may be absent.
  \<^verbatim>\<open>UpdateTask\<close> is \<^verbatim>\<open>insertTaskSchema.partial().omit({ ownerId: true })\<close>: every
  field optional, no \<^verbatim>\<open>ownerId\<close>. For a nullable column the outer \<open>option\<close> is
  "absent" and the inner one is \<^verbatim>\<open>null\<close>.
\<close>

record InsertUser =
  iu_firebaseUid :: string
  iu_email :: string
  iu_displayName :: "string option"

record InsertTask =
  it_title :: string
  it_description :: "string option"
  it_status :: "task_status option"
  it_priority :: "task_priority option"
  it_dueDate :: "int option"
  it_ownerId :: int

record UpdateTask =
  u_title :: "string option"
  u_description :: "string option option"
  u_status :: "task_status option"
  u_priority :: "task_priority option"
  u_dueDate :: "int option option"

record InsertTaskShare =
  is_taskId :: int
  is_sharedWithId :: int
  is_permission :: "share_permission option"

text \<open>
  The database: each table is the list of its rows in insertion order, which is the
  order a \<^verbatim>\<open>select\<close> without \<^verbatim>\<open>orderBy\<close> scans them in; each \<^verbatim>\<open>serial\<close> column
  has its sequence, holding the last value handed out.
\<close>

record db =
  users :: "user list"
  tasks :: "task list"
  taskShares :: "taskShare list"
  users_seq :: int
  tasks_seq :: int
  taskShares_seq :: int

datatype db_error = UniqueViolation | ForeignKeyViolation | OutOfRange

datatype error = Error string | DbError db_error

text \<open>
  The columns \<^verbatim>\<open>serial\<close> and \<^verbatim>\<open>integer\<close> hold 32-bit signed integers. A statement
  that compares such a column with a number outside this range is rejected by the
  database with a range error and writes nothing, and the sequence of a \<^verbatim>\<open>serial\<close>
  column ends at the largest value of the column.
\<close>

definition int4 :: "int \<Rightarrow> bool" where
  "int4 i \<longleftrightarrow> - 2147483648 \<le> i \<and> i \<le> 2147483647"

section \<open>Query building blocks (drizzle-orm on PostgreSQL)\<close>

text \<open>
  \<^verbatim>\<open>a.leftJoin(b, on)\<close>: every row of \<open>a\<close> with each matching row of \<open>b\<close>, or once
  with \<^verbatim>\<open>null\<close> when none matches.
\<close>

definition leftJoin :: "'a list \<Rightarrow> 'b list \<Rightarrow> ('a \<Rightarrow> 'b \<Rightarrow> bool) \<Rightarrow> ('a \<times> 'b option) list" where
  "leftJoin as bs on =
     concat (map (\<lambda>a. case filter (on a) bs of
                          [] \<Rightarrow> [(a, None)]
                        | ms \<Rightarrow> map (\<lambda>b. (a, Some b)) ms) as)"

text \<open>
  \<^verbatim>\<open>ilike(column, pattern)\<close> is PostgreSQL's \<^verbatim>\<open>ILIKE\<close>. In a \<^verbatim>\<open>LIKE\<close> pattern
  \<^verbatim>\<open>%\<close> stands for any run of characters, \<^verbatim>\<open>_\<close> for any one character, and a
  backslash makes the character after it literal (a pattern ending in a lone backslash
  is an error, which the patterns built below never are, as they end in \<^verbatim>\<open>%\<close>; it
  matches nothing here). \<^verbatim>\<open>ILIKE\<close> compares without regard to case. A text is the
  list of its characters, and the model has the characters of one byte, with the case
  of the ASCII letters: a text with a character of several bytes, which \<^verbatim>\<open>_\<close> matches
  as one character and whose case the database's locale decides, is outside the model.
\<close>

definition percent :: char where "percent = CHR ''%''"
definition underscore :: char where "underscore = CHR ''_''"
definition backslash :: char where "backslash = CHR 0x5C"

fun like :: "string \<Rightarrow> string \<Rightarrow> bool" where
  "like [] [] = True"
| "like [] (c # cs) = False"
| "like (p # ps) [] =
     (if p = percent then like ps [] else False)"
| "like (p # ps) (c # cs) =
     (if p = percent then like ps (c # cs) \<or> like (p # ps) cs
      else if p = underscore then like ps cs
      else if p = backslash then
        (case ps of [] \<Rightarrow> False | q # qs \<Rightarrow> q = c \<and> like qs cs)
      else p = c \<and> like ps cs)"

definition toLower :: "char \<Rightarrow> char" where
  "toLower c = (let n = (of_char c :: nat) in
                  if 65 \<le> n \<and> n \<le> 90 then char_of (n + 32) else c)"

definition ilike :: "string \<Rightarrow> string \<Rightarrow> bool" where
  "ilike s pattern = like (map toLower pattern) (map toLower s)"

text \<open>On a nullable column \<^verbatim>\<open>ILIKE\<close> yields \<^verbatim>\<open>NULL\<close> for a \<^verbatim>\<open>NULL\<close> value, and
  a row whose \<^verbatim>\<open>where\<close> condition is not true is not selected.\<close>

definition ilike_nullable :: "string option \<Rightarrow> string \<Rightarrow> bool" where
  "ilike_nullable v pattern = (case v of None \<Rightarrow> False | Some s \<Rightarrow> ilike s pattern)"

section \<open>Storage (server/storage.ts)\<close>

text \<open>
  Every operation of \<^verbatim>\<open>DatabaseStorage\<close> takes the database and returns what the
  method returns; an operation that writes returns the database after it as well, also
  when it throws. \<open>now\<close> is the clock (\<^verbatim>\<open>new Date()\<close>, \<^verbatim>\<open>defaultNow()\<close>). Losing
  the connection to the database is outside the model.

  An id that a route passes on from the request (\<^verbatim>\<open>parseInt(req.params.id)\<close>,
  \<^verbatim>\<open>parseInt(req.params.userId)\<close>, the \<^verbatim>\<open>taskId\<close> of a share request) can be any
  integer, and the operation that queries with it throws the database's range error
  when it is outside the column's range. The \<^verbatim>\<open>userId\<close> of an operation is always
  the \<^verbatim>\<open>id\<close> of a row of \<^verbatim>\<open>users\<close> that the route has read, and \<^verbatim>\<open>getTaskShares\<close>
  is only called with an id that \<^verbatim>\<open>getTaskById\<close> has accepted.
\<close>

text \<open>\<^verbatim>\<open>result[0]\<close>: \<^verbatim>\<open>undefined\<close> on the empty array.\<close>

definition first :: "'a list \<Rightarrow> 'a option" where
  "first xs = (case xs of [] \<Rightarrow> None | x # _ \<Rightarrow> Some x)"

definition getUser :: "db \<Rightarrow> int \<Rightarrow> user option" where
  "getUser d i = first (take 1 (filter (\<lambda>u. user_id u = i) (users d)))"

definition getUserByFirebaseUid :: "db \<Rightarrow> string \<Rightarrow> user option" where
  "getUserByFirebaseUid d fuid = first (take 1 (filter (\<lambda>u. firebaseUid u = fuid) (users d)))"

definition getUserByEmail :: "db \<Rightarrow> string \<Rightarrow> user option" where
  "getUserByEmail d e = first (take 1 (filter (\<lambda>u. email u = e) (users d)))"

text \<open>
  An insert draws the next value of the table's sequence (which stays drawn when the
  insert fails), and fails on a primary-key or \<^verbatim>\<open>unique()\<close> clash and on a reference
  to a row that does not exist. When the sequence has reached the end of the column's
  range no value is drawn and the insert fails.
\<close>

definition createUser :: "db \<Rightarrow> int \<Rightarrow> InsertUser \<Rightarrow> (db_error + user) \<times> db" where
  "createUser d now u =
     (let i = users_seq d + 1;
          d1 = d\<lparr>users_seq := i\<rparr>;
          row = \<lparr>user_id = i, firebaseUid = iu_firebaseUid u, email = iu_email u,
                 displayName = iu_displayName u, user_createdAt = now\<rparr>
      in if int4 i then
           if list_ex (\<lambda>r. user_id r = i) (users d) then (Inl UniqueViolation, d1)
           else if list_ex (\<lambda>r. firebaseUid r = iu_firebaseUid u) (users d)
             then (Inl UniqueViolation, d1)
           else (Inr row, d1\<lparr>users := users d @ [row]\<rparr>)
         else (Inl OutOfRange, d))"

definition withSharedWith :: "taskShare \<Rightarrow> user option \<Rightarrow> shareWithUser" where
  "withSharedWith s u =
     \<lparr>share_id = share_id s, taskId = taskId s, sharedWithId = sharedWithId s,
      permission = permission s, share_createdAt = share_createdAt s, sharedWith = u\<rparr>"

definition withOwner :: "task \<Rightarrow> user option \<Rightarrow> shareWithUser list \<Rightarrow> TaskWithOwner" where
  "withOwner t u ss =
     \<lparr>task_id = task_id t, title = title t, description = description t,
      status = status t, priority = priority t, dueDate = dueDate t,
      task_createdAt = task_createdAt t, updatedAt = updatedAt t, ownerId = ownerId t,
      owner = u, shares = ss\<rparr>"

definition getTaskShares :: "db \<Rightarrow> int \<Rightarrow> shareWithUser list" where
  "getTaskShares d tid =
     (let result = filter (\<lambda>(s, u). taskId s = tid)
            (leftJoin (taskShares d) (users d) (\<lambda>s u. sharedWithId s = user_id u))
      in map (\<lambda>(s, u). withSharedWith s u) result)"

text \<open>\<^verbatim>\<open>getTaskById\<close> and \<^verbatim>\<open>getTasksByUserId\<close> run the query of \<^verbatim>\<open>getTaskShares\<close>
  inline.\<close>

definition getTaskById :: "db \<Rightarrow> int \<Rightarrow> db_error + TaskWithOwner option" where
  "getTaskById d i =
     (if int4 i then
        (let taskResult = take 1 (filter (\<lambda>(t, u). task_id t = i)
               (leftJoin (tasks d) (users d) (\<lambda>t u. ownerId t = user_id u)))
         in case taskResult of
              [] \<Rightarrow> Inr None
            | (t, u) # _ \<Rightarrow> Inr (Some (withOwner t u (getTaskShares d i))))
      else Inl OutOfRange)"

text \<open>
  \<^verbatim>\<open>if (search)\<close>: \<^verbatim>\<open>undefined\<close> and the empty string are falsy, every other
  string is truthy. In a template string \<^verbatim>\<open>undefined\<close> prints as its name.
\<close>

definition truthy :: "string option \<Rightarrow> bool" where
  "truthy search = (case search of None \<Rightarrow> False | Some s \<Rightarrow> s \<noteq> [])"

definition interpolate :: "string option \<Rightarrow> string" where
  "interpolate search = (case search of None \<Rightarrow> ''undefined'' | Some s \<Rightarrow> s)"

text \<open>\<^verbatim>\<open>orderBy(desc(tasks.createdAt))\<close>: among rows created at the same instant the
  order is the database's choice, here that of the scan.\<close>

definition getTasksByUserId :: "db \<Rightarrow> int \<Rightarrow> string option \<Rightarrow> TaskWithOwner list" where
  "getTasksByUserId d userId search =
     (let query = leftJoin (tasks d) (users d) (\<lambda>t u. ownerId t = user_id u);
          query1 =
            (if truthy search then
               filter (\<lambda>(t, u). ownerId t = userId \<and>
                         (ilike (title t) ([percent] @ interpolate search @ [percent]) \<or>
                          ilike_nullable (description t)
                            ([percent] @ interpolate search @ [percent])))
                 query
             else filter (\<lambda>(t, u). ownerId t = userId) query);
          tasksResult = sort_key (\<lambda>(t, u). - task_createdAt t) query1
      in map (\<lambda>(t, u). withOwner t u (getTaskShares d (task_id t))) tasksResult)"

definition createTask :: "db \<Rightarrow> int \<Rightarrow> InsertTask \<Rightarrow> (db_error + task) \<times> db" where
  "createTask d now t =
     (let i = tasks_seq d + 1;
          d1 = d\<lparr>tasks_seq := i\<rparr>;
          row = \<lparr>task_id = i, title = it_title t, description = it_description t,
                 status = (case it_status t of None \<Rightarrow> todo | Some s \<Rightarrow> s),
                 priority = (case it_priority t of None \<Rightarrow> medium | Some p \<Rightarrow> p),
                 dueDate = it_dueDate t, task_createdAt = now, updatedAt = now,
                 ownerId = it_ownerId t\<rparr>
      in if int4 i then
           if list_ex (\<lambda>r. task_id r = i) (tasks d) then (Inl UniqueViolation, d1)
           else if list_ex (\<lambda>u. user_id u = it_ownerId t) (users d)
             then (Inr row, d1\<lparr>tasks := tasks d @ [row]\<rparr>)
           else (Inl ForeignKeyViolation, d1)
         else (Inl OutOfRange, d))"

text \<open>\<^verbatim>\<open>.set({ ...updates, updatedAt: new Date() })\<close>: a field that is absent from
  \<^verbatim>\<open>updates\<close> keeps its value.\<close>

definition applyUpdates :: "UpdateTask \<Rightarrow> int \<Rightarrow> task \<Rightarrow> task" where
  "applyUpdates updates now t =
     t\<lparr>title := (case u_title updates of None \<Rightarrow> title t | Some v \<Rightarrow> v),
       description := (case u_description updates of None \<Rightarrow> description t | Some v \<Rightarrow> v),
       status := (case u_status updates of None \<Rightarrow> status t | Some v \<Rightarrow> v),
       priority := (case u_priority updates of None \<Rightarrow> priority t | Some v \<Rightarrow> v),
       dueDate := (case u_dueDate updates of None \<Rightarrow> dueDate t | Some v \<Rightarrow> v),
       updatedAt := now\<rparr>"

definition updateTask :: "db \<Rightarrow> int \<Rightarrow> int \<Rightarrow> int \<Rightarrow> UpdateTask \<Rightarrow> (error + task) \<times> db" where
  "updateTask d now i userId updates =
     (if int4 i then
        (let hit = (\<lambda>t. task_id t = i \<and> ownerId t = userId);
             d1 = d\<lparr>tasks := map (\<lambda>t. if hit t then applyUpdates updates now t else t)
                                (tasks d)\<rparr>;
             result = map (applyUpdates updates now) (filter hit (tasks d))
         in case result of
              [] \<Rightarrow> (Inl (Error ''Task not found or access denied''), d1)
            | r # _ \<Rightarrow> (Inr r, d1))
      else (Inl (DbError OutOfRange), d))"

text \<open>Deleting a task deletes the shares that reference it:
  \<^verbatim>\<open>taskId ... references(() => tasks.id, { onDelete: "cascade" })\<close>.\<close>

definition deleteTask :: "db \<Rightarrow> int \<Rightarrow> int \<Rightarrow> (db_error + bool) \<times> db" where
  "deleteTask d i userId =
     (if int4 i then
        (let hit = (\<lambda>t. task_id t = i \<and> ownerId t = userId);
             result = filter hit (tasks d);
             d1 = d\<lparr>tasks := filter (\<lambda>t. \<not> hit t) (tasks d),
                    taskShares := filter (\<lambda>s. \<not> list_ex (\<lambda>t. task_id t = taskId s) result)
                                    (taskShares d)\<rparr>
         in (Inr (length result > 0), d1))
      else (Inl OutOfRange, d))"

definition shareTask :: "db \<Rightarrow> int \<Rightarrow> InsertTaskShare \<Rightarrow> (db_error + taskShare) \<times> db" where
  "shareTask d now s =
     (let i = taskShares_seq d + 1;
          d1 = d\<lparr>taskShares_seq := i\<rparr>;
          row = \<lparr>share_id = i, taskId = is_taskId s, sharedWithId = is_sharedWithId s,
                 permission = (case is_permission s of None \<Rightarrow> view | Some p \<Rightarrow> p),
                 share_createdAt = now\<rparr>
      in if int4 i then
           if list_ex (\<lambda>r. share_id r = i) (taskShares d) then (Inl UniqueViolation, d1)
           else if list_ex (\<lambda>t. task_id t = is_taskId s) (tasks d) \<and>
                   list_ex (\<lambda>u. user_id u = is_sharedWithId s) (users d)
             then (Inr row, d1\<lparr>taskShares := taskShares d @ [row]\<rparr>)
           else (Inl ForeignKeyViolation, d1)
         else (Inl OutOfRange, d))"

definition removeTaskShare :: "db \<Rightarrow> int \<Rightarrow> int \<Rightarrow> (db_error + bool) \<times> db" where
  "removeTaskShare d tid swid =
     (if int4 tid \<and> int4 swid then
        (let hit = (\<lambda>s. taskId s = tid \<and> sharedWithId s = swid);
             result = filter hit (taskShares d)
         in (Inr (length result > 0),
             d\<lparr>taskShares := filter (\<lambda>s. \<not> hit s) (taskShares d)\<rparr>))
      else (Inl OutOfRange, d))"


section \<open>Routes (server/routes.ts)\<close>

text \<open>
  A handler runs after \<^verbatim>\<open>authenticateUser\<close> has verified the bearer token and set
  \<^verbatim>\<open>req.user\<close>; it takes the database and returns the response with the database
  after it. \<^verbatim>\<open>req.params.id\<close> is taken after \<^verbatim>\<open>parseInt\<close>, as the integer it
  denotes, of whichever size. An error that a storage operation throws is caught by the
  handler's \<^verbatim>\<open>catch\<close>. \<^verbatim>\<open>broadcastToClients\<close> only writes to the log. The schemas'
  \<^verbatim>\<open>parse\<close> is a parameter of the handlers that call it: it maps the request body to
  the typed value, or to the issues of the \<^verbatim>\<open>ZodError\<close> it throws.
\<close>

record AuthUser =
  uid :: string
  au_email :: string
  name :: "string option"

record ShareTaskRequest =
  sr_taskId :: int
  sr_email :: string
  sr_permission :: share_permission

datatype 'a response =
    Json nat 'a
  | Message nat string
  | Invalid nat string "string list"
  | Send nat


text \<open>\<^verbatim>\<open>displayName || null\<close>: \<^verbatim>\<open>undefined\<close> and the empty string become
  \<^verbatim>\<open>null\<close>.\<close>

definition getOrCreateUser ::
  "db \<Rightarrow> int \<Rightarrow> string \<Rightarrow> string \<Rightarrow> string option \<Rightarrow> (db_error + user) \<times> db" where
  "getOrCreateUser d now fuid mail dname =
     (case getUserByFirebaseUid d fuid of
        Some u \<Rightarrow> (Inr u, d)
      | None \<Rightarrow>
          createUser d now
            \<lparr>iu_firebaseUid = fuid, iu_email = mail,
             iu_displayName = (case dname of None \<Rightarrow> None
                               | Some n \<Rightarrow> if n = [] then None else Some n)\<rparr>)"


text \<open>\<^verbatim>\<open>GET /api/tasks/:id\<close>\<close>

definition getTaskRoute :: "db \<Rightarrow> int \<Rightarrow> AuthUser \<Rightarrow> int \<Rightarrow> TaskWithOwner response \<times> db" where
  "getTaskRoute d now ru tid =
     (case getOrCreateUser d now (uid ru) (au_email ru) (name ru) of
        (Inl e, d1) \<Rightarrow> (Message 500 ''Failed to fetch task'', d1)
      | (Inr usr, d1) \<Rightarrow>
          (case getTaskById d1 tid of
             Inl e \<Rightarrow> (Message 500 ''Failed to fetch task'', d1)
           | Inr None \<Rightarrow> (Message 404 ''Task not found'', d1)
           | Inr (Some t) \<Rightarrow>
               (let hasAccess = (ownerId t = user_id usr \<or>
                      list_ex (\<lambda>share. sharedWithId share = user_id usr) (shares t))
                in if \<not> hasAccess then (Message 403 ''Access denied'', d1)
                   else (Json 200 t, d1))))"


text \<open>\<^verbatim>\<open>DELETE /api/tasks/:id\<close>\<close>

definition deleteTaskRoute :: "db \<Rightarrow> int \<Rightarrow> AuthUser \<Rightarrow> int \<Rightarrow> unit response \<times> db" where
  "deleteTaskRoute d now ru tid =
     (case getOrCreateUser d now (uid ru) (au_email ru) (name ru) of
        (Inl e, d1) \<Rightarrow> (Message 500 ''Failed to delete task'', d1)
      | (Inr usr, d1) \<Rightarrow>
          (case deleteTask d1 tid (user_id usr) of
             (Inl e, d2) \<Rightarrow> (Message 500 ''Failed to delete task'', d2)
           | (Inr success, d2) \<Rightarrow>
               if \<not> success then (Message 404 ''Task not found or access denied'', d2)
               else (Send 204, d2)))"

text \<open>\<^verbatim>\<open>Date.now()\<close> inside a template string: the decimal digits of the clock.\<close>

fun digits :: "nat \<Rightarrow> string" where
  "digits n = (if n < 10 then [char_of (48 + n)]
               else digits (n div 10) @ [char_of (48 + n mod 10)])"

declare digits.simps [simp del]

definition numberToString :: "int \<Rightarrow> string" where
  "numberToString i = (if i < 0 then ''-'' @ digits (nat (- i)) else digits (nat i))"

text \<open>\<^verbatim>\<open>POST /api/tasks/share\<close>\<close>

definition shareTaskRoute ::
  "('b \<Rightarrow> string list + ShareTaskRequest) \<Rightarrow> db \<Rightarrow> int \<Rightarrow> AuthUser \<Rightarrow> 'b \<Rightarrow> taskShare response \<times> db" where
  "shareTaskRoute parse d now ru body =
     (case getOrCreateUser d now (uid ru) (au_email ru) (name ru) of
        (Inl e, d1) \<Rightarrow> (Message 500 ''Failed to share task'', d1)
      | (Inr usr, d1) \<Rightarrow>
          (case parse body of
             Inl issues \<Rightarrow> (Invalid 400 ''Invalid share data'' issues, d1)
           | Inr shareData \<Rightarrow>
               (case getTaskById d1 (sr_taskId shareData) of
                  Inl e \<Rightarrow> (Message 500 ''Failed to share task'', d1)
                | Inr t \<Rightarrow>
                   if (case t of None \<Rightarrow> True | Some t' \<Rightarrow> ownerId t' \<noteq> user_id usr)
                   then (Message 403 ''You can only share tasks you own'', d1)
                   else
                     (case (case getUserByEmail d1 (sr_email shareData) of
                              Some u \<Rightarrow> (Inr u, d1)
                            | None \<Rightarrow>
                                createUser d1 now
                                  \<lparr>iu_firebaseUid = ''placeholder_'' @ numberToString now @ ''_''
                                                      @ sr_email shareData,
                                   iu_email = sr_email shareData,
                                   iu_displayName = None\<rparr>) of
                        (Inl e, d2) \<Rightarrow> (Message 500 ''Failed to share task'', d2)
                      | (Inr sharedWithUser, d2) \<Rightarrow>
                          (let existingShares = getTaskShares d2 (sr_taskId shareData);
                               alreadyShared =
                                 list_ex (\<lambda>share. sharedWithId share = user_id sharedWithUser)
                                   existingShares
                           in if alreadyShared
                              then (Message 400 ''Task is already shared with this user'', d2)
                              else
                                (case shareTask d2 now
                                        \<lparr>is_taskId = sr_taskId shareData,
                                         is_sharedWithId = user_id sharedWithUser,
                                         is_permission = Some (sr_permission shareData)\<rparr> of
                                   (Inl e, d3) \<Rightarrow> (Message 500 ''Failed to share task'', d3)
                                 | (Inr share, d3) \<Rightarrow> (Json 201 share, d3)))))))"

section \<open>Definitions for the properties\<close>

text \<open>A sequence of calls of \<^verbatim>\<open>updateTask\<close>, each with its clock, task id, caller and
  patch, run one after the other whether or not a call throws.\<close>

fun updateTasks :: "db \<Rightarrow> (int \<times> int \<times> int \<times> UpdateTask) list \<Rightarrow> db" where
  "updateTasks d [] = d"
| "updateTasks d ((now, i, userId, updates) # calls) =
     updateTasks (snd (updateTask d now i userId updates)) calls"

text \<open>
  What the schema's constraints keep true of a database: the primary keys of
  \<^verbatim>\<open>users\<close> and \<^verbatim>\<open>tasks\<close> are unique, and the task of every share exists.
\<close>

definition consistent :: "db \<Rightarrow> bool" where
  "consistent d \<longleftrightarrow>
     distinct (map user_id (users d)) \<and>
     distinct (map task_id (tasks d)) \<and>
     list_all (\<lambda>s. list_ex (\<lambda>t. task_id t = taskId s) (tasks d)) (taskShares d)"

text \<open>The condition \<^verbatim>\<open>getTasksByUserId\<close> puts on a task besides its owner.\<close>

definition matchesSearch :: "string option \<Rightarrow> task \<Rightarrow> bool" where
  "matchesSearch search t =
     (if truthy search then
        ilike (title t) ([percent] @ interpolate search @ [percent]) \<or>
        ilike_nullable (description t) ([percent] @ interpolate search @ [percent])
      else True)"

text \<open>
  The specification's reading of the search: the text contains the search term, case
  being ignored. \<open>startsWith t s\<close> and \<open>hasSubstring t s\<close> say that \<open>s\<close> is a
  prefix of \<open>t\<close> and occurs in \<open>t\<close>. A character is \<open>plain\<close> when it has no meaning
  of its own in a \<^verbatim>\<open>LIKE\<close> pattern.
\<close>

fun startsWith :: "string \<Rightarrow> string \<Rightarrow> bool" where
  "startsWith t [] = True"
| "startsWith [] (x # xs) = False"
| "startsWith (c # cs) (x # xs) = (c = x \<and> startsWith cs xs)"

fun hasSubstring :: "string \<Rightarrow> string \<Rightarrow> bool" where
  "hasSubstring [] s = (s = [])"
| "hasSubstring (c # cs) s = (startsWith (c # cs) s \<or> hasSubstring cs s)"

definition containsIgnoreCase :: "string \<Rightarrow> string \<Rightarrow> bool" where
  "containsIgnoreCase t s = hasSubstring (map toLower t) (map toLower s)"

definition plain :: "char \<Rightarrow> bool" where
  "plain c \<longleftrightarrow> c \<noteq> percent \<and> c \<noteq> underscore \<and> c \<noteq> backslash"

subsection \<open>An example database\<close>

text \<open>User A owns the task "Write report" and has shared it with user B for viewing.\<close>

definition userA :: user where
  "userA = \<lparr>user_id = 1, firebaseUid = ''uid-a'', email = ''a@example.com'',
            displayName = Some ''A'', user_createdAt = 10\<rparr>"

definition userB :: user where
  "userB = \<lparr>user_id = 2, firebaseUid = ''uid-b'', email = ''b@example.com'',
            displayName = None, user_createdAt = 20\<rparr>"

definition report :: task where
  "report = \<lparr>task_id = 1, title = ''Write report'', description = None, status = todo,
             priority = high, dueDate = None, task_createdAt = 30, updatedAt = 30,
             ownerId = 1\<rparr>"

definition reportShare :: taskShare where
  "reportShare = \<lparr>share_id = 1, taskId = 1, sharedWithId = 2, permission = view,
                  share_createdAt = 40\<rparr>"

definition exampleDb :: db where
  "exampleDb = \<lparr>users = [userA, userB], tasks = [report], taskShares = [reportShare],
                users_seq = 2, tasks_seq = 1, taskShares_seq = 1\<rparr>"

definition authA :: AuthUser where
  "authA = \<lparr>uid = ''uid-a'', au_email = ''a@example.com'', name = Some ''A''\<rparr>"

definition authB :: AuthUser where
  "authB = \<lparr>uid = ''uid-b'', au_email = ''b@example.com'', name = None\<rparr>"

definition markCompleted :: UpdateTask where
  "markCompleted = \<lparr>u_title = None, u_description = None, u_status = Some completed,
                    u_priority = None, u_dueDate = None\<rparr>"

definition newTask :: InsertTask where
  "newTask = \<lparr>it_title = ''Plan trip'', it_description = Some ''by rail'', it_status = None,
              it_priority = None, it_dueDate = None, it_ownerId = 2\<rparr>"

text \<open>The same database after A has shared the report with A as well.\<close>

definition selfShare :: taskShare where
  "selfShare = \<lparr>share_id = 2, taskId = 1, sharedWithId = 1, permission = edit,
                share_createdAt = 45\<rparr>"

definition selfSharedDb :: db where
  "selfSharedDb = exampleDb\<lparr>taskShares := [reportShare, selfShare], taskShares_seq := 2\<rparr>"

text \<open>A third caller, who has no account before the first request, and the database
  after that request has created the account.\<close>

definition authC :: AuthUser where
  "authC = \<lparr>uid = ''uid-c'', au_email = ''c@example.com'', name = Some []\<rparr>"

definition userC :: user where
  "userC = \<lparr>user_id = 3, firebaseUid = ''uid-c'', email = ''c@example.com'',
            displayName = None, user_createdAt = 50\<rparr>"

definition exampleDbC :: db where
  "exampleDbC = exampleDb\<lparr>users := [userA, userB, userC], users_seq := 3\<rparr>"

text \<open>Two requests to share the report with an address that has no account, the first
  for editing and the second for viewing.\<close>

definition shareWithD :: ShareTaskRequest where
  "shareWithD = \<lparr>sr_taskId = 1, sr_email = ''d@example.com'', sr_permission = edit\<rparr>"

definition shareWithDAgain :: ShareTaskRequest where
  "shareWithDAgain = \<lparr>sr_taskId = 1, sr_email = ''d@example.com'', sr_permission = view\<rparr>"

section \<open>Lemmas on the query building blocks\<close>

lemma leftJoin_Nil: "leftJoin [] bs on = []"
  by (simp add: leftJoin_def)

lemma filter_leftJoin_fst:
  "filter (\<lambda>(a, b). P a) (leftJoin as bs on) = leftJoin (filter P as) bs on"
  by (induction as) (auto simp: leftJoin_def split: list.splits)

lemma leftJoin_Cons_take1:
  "take (Suc 0) (leftJoin (a # as) bs on) = [(a, first (filter (on a) bs))]"
  by (auto simp: leftJoin_def first_def split: list.splits)

lemma leftJoin_empty_iff: "leftJoin as bs on = [] \<longleftrightarrow> as = []"
  by (cases as) (auto simp: leftJoin_def split: list.splits)

lemma fst_set_leftJoin: "fst ` set (leftJoin as bs on) = set as"
proof (induction as)
  case Nil
  show ?case by (simp add: leftJoin_def)
next
  case (Cons a as)
  have "fst ` set (case filter (on a) bs of [] \<Rightarrow> [(a, None)]
                   | ms \<Rightarrow> map (\<lambda>b. (a, Some b)) ms) = {a}"
    by (auto split: list.splits simp: image_iff)
  with Cons show ?case by (simp add: leftJoin_def image_Un)
qed



lemma first_take1: "first (take (Suc 0) xs) = first xs"
  by (cases xs) (simp_all add: first_def)

lemma first_append:
  "first (xs @ ys) = (case first xs of Some x \<Rightarrow> Some x | None \<Rightarrow> first ys)"
  by (cases xs) (simp_all add: first_def)

lemma first_single: "first [x] = Some x"
  by (simp add: first_def)

subsection \<open>\<^verbatim>\<open>LIKE\<close> on a search term of plain characters is containment\<close>

lemma like_percent: "like [percent] t"
  by (induction t) simp_all

lemma like_startsWith:
  "list_all plain s \<Longrightarrow> like (s @ [percent]) t = startsWith t s"
proof (induction s arbitrary: t)
  case Nil
  show ?case by (simp add: like_percent)
next
  case (Cons x xs)
  then show ?case by (cases t) (simp_all add: plain_def eq_commute)
qed

lemma like_hasSubstring:
  "list_all plain s \<Longrightarrow> like (percent # s @ [percent]) t = hasSubstring t s"
proof (induction t)
  case Nil
  then show ?case using like_startsWith [of s "[]"] by (cases s) simp_all
next
  case (Cons c cs)
  then show ?case using like_startsWith [of s "c # cs"] by simp
qed

lemma of_char_toLower:
  "(of_char (toLower c) :: nat) =
     (if 65 \<le> (of_char c :: nat) \<and> (of_char c :: nat) \<le> 90 then of_char c + 32
      else of_char c)"
  by (simp add: toLower_def Let_def)

lemma plain_code:
  "plain c \<longleftrightarrow> (of_char c :: nat) \<noteq> 37 \<and> (of_char c :: nat) \<noteq> 95 \<and> (of_char c :: nat) \<noteq> 92"
proof -
  have "c = percent \<longleftrightarrow> (of_char c :: nat) = of_char percent"
       "c = underscore \<longleftrightarrow> (of_char c :: nat) = of_char underscore"
       "c = backslash \<longleftrightarrow> (of_char c :: nat) = of_char backslash"
    by (simp_all only: of_char_eq_iff)
  then show ?thesis
    by (simp add: plain_def percent_def underscore_def backslash_def)
qed

lemma plain_toLower: "plain c \<Longrightarrow> plain (toLower c)"
  by (auto simp: plain_code of_char_toLower)

lemma toLower_percent: "toLower percent = percent"
  by (simp add: toLower_def percent_def)

lemma ilike_plain:
  assumes "list_all plain s"
  shows "ilike t ([percent] @ s @ [percent]) = containsIgnoreCase t s"
proof -
  from assms have "list_all plain (map toLower s)"
    by (simp add: list_all_iff plain_toLower)
  from like_hasSubstring [OF this] show ?thesis
    by (simp add: ilike_def containsIgnoreCase_def toLower_percent)
qed

lemma startsWith_iff: "startsWith t s \<longleftrightarrow> (\<exists>post. t = s @ post)"
  by (induction t s rule: startsWith.induct) auto

lemma hasSubstring_iff: "hasSubstring t s \<longleftrightarrow> (\<exists>pre post. t = pre @ s @ post)"
proof (induction t)
  case Nil
  show ?case by simp
next
  case (Cons c cs)
  show ?case
  proof
    assume "hasSubstring (c # cs) s"
    then consider "startsWith (c # cs) s" | "hasSubstring cs s" by auto
    then show "\<exists>pre post. c # cs = pre @ s @ post"
    proof cases
      case 1
      then obtain post where "c # cs = s @ post" by (auto simp: startsWith_iff)
      then have "c # cs = [] @ s @ post" by simp
      then show ?thesis by blast
    next
      case 2
      with Cons obtain pre post where "cs = pre @ s @ post" by blast
      then have "c # cs = (c # pre) @ s @ post" by simp
      then show ?thesis by blast
    qed
  next
    assume "\<exists>pre post. c # cs = pre @ s @ post"
    then obtain pre post where e: "c # cs = pre @ s @ post" by blast
    show "hasSubstring (c # cs) s"
    proof (cases pre)
      case Nil
      with e have "startsWith (c # cs) s" by (auto simp: startsWith_iff)
      then show ?thesis by simp
    next
      case (Cons p ps)
      with e have "cs = ps @ s @ post" by simp
      then have "hasSubstring cs s" using Cons.IH by blast
      then show ?thesis by simp
    qed
  qed
qed

section \<open>Storage: what the queries return\<close>

lemma getUserByFirebaseUid_first:
  "getUserByFirebaseUid d f = first (filter (\<lambda>u. firebaseUid u = f) (users d))"
  by (simp add: getUserByFirebaseUid_def first_take1)

lemma getUserByEmail_first:
  "getUserByEmail d e = first (filter (\<lambda>u. email u = e) (users d))"
  by (simp add: getUserByEmail_def first_take1)

lemma getTaskById_first:
  "getTaskById d i =
     (if int4 i then
        Inr (case filter (\<lambda>t. task_id t = i) (tasks d) of
               [] \<Rightarrow> None
             | t # _ \<Rightarrow>
                 Some (withOwner t (first (filter (\<lambda>u. ownerId t = user_id u) (users d)))
                         (getTaskShares d i)))
      else Inl OutOfRange)"
proof -
  have "filter (\<lambda>(t, u). task_id t = i)
          (leftJoin (tasks d) (users d) (\<lambda>t u. ownerId t = user_id u))
        = leftJoin (filter (\<lambda>t. task_id t = i) (tasks d)) (users d)
            (\<lambda>t u. ownerId t = user_id u)"
    by (rule filter_leftJoin_fst)
  then show ?thesis
    unfolding getTaskById_def Let_def
    by (cases "filter (\<lambda>t. task_id t = i) (tasks d)")
       (simp_all add: leftJoin_Cons_take1 leftJoin_Nil)
qed

lemma getTaskById_ownerId:
  "map_sum id (map_option ownerId) (getTaskById d i) =
     (if int4 i then
        Inr (map_option snd (first (filter (\<lambda>p. fst p = i)
                                      (map (\<lambda>t. (task_id t, ownerId t)) (tasks d)))))
      else Inl OutOfRange)"
  by (simp add: getTaskById_first first_def filter_map comp_def withOwner_def
      split: list.splits)

lemma getTaskById_owner_tasks:
  assumes "tasks d' = tasks d" and "getTaskById d i = Inr (Some t)"
  shows "\<exists>t'. getTaskById d' i = Inr (Some t') \<and> ownerId t' = ownerId t"
proof -
  have "map_sum id (map_option ownerId) (getTaskById d' i)
          = map_sum id (map_option ownerId) (getTaskById d i)"
    by (simp add: getTaskById_ownerId assms(1))
  with assms(2) show ?thesis
    by (cases "getTaskById d' i") auto
qed

lemma getTaskShares_empty_iff:
  "getTaskShares d i = [] \<longleftrightarrow> \<not> list_ex (\<lambda>s. taskId s = i) (taskShares d)"
  by (simp add: getTaskShares_def Let_def filter_leftJoin_fst leftJoin_empty_iff
        list_ex_iff filter_empty_conv)

lemma getTaskShares_sharedWithId:
  "list_ex (\<lambda>share. sharedWithId share = k) (getTaskShares d i)
     = list_ex (\<lambda>s. taskId s = i \<and> sharedWithId s = k) (taskShares d)"
proof -
  let ?J = "leftJoin (filter (\<lambda>s. taskId s = i) (taskShares d)) (users d)
              (\<lambda>s u. sharedWithId s = user_id u)"
  have "list_ex (\<lambda>share. sharedWithId share = k) (getTaskShares d i)
        \<longleftrightarrow> (\<exists>s \<in> fst ` set ?J. sharedWithId s = k)"
    by (force simp: getTaskShares_def Let_def filter_leftJoin_fst list_ex_iff
          withSharedWith_def)
  also have "\<dots> \<longleftrightarrow> list_ex (\<lambda>s. taskId s = i \<and> sharedWithId s = k) (taskShares d)"
    by (auto simp: fst_set_leftJoin list_ex_iff)
  finally show ?thesis .
qed

lemma truncate_withOwner: "task.truncate (withOwner t u ss) = t"
  by (simp add: task.truncate_def withOwner_def)

lemma getTasksByUserId_filter:
  "getTasksByUserId d userId search =
     map (\<lambda>(t, u). withOwner t u (getTaskShares d (task_id t)))
       (sort_key (\<lambda>(t, u). - task_createdAt t)
          (leftJoin (filter (\<lambda>t. ownerId t = userId \<and> matchesSearch search t) (tasks d))
             (users d) (\<lambda>t u. ownerId t = user_id u)))"
  unfolding filter_leftJoin_fst [symmetric] getTasksByUserId_def Let_def
  by (simp add: matchesSearch_def)

text \<open>The rows \<^verbatim>\<open>getTasksByUserId\<close> returns are the tasks of the owner that meet the
  search condition, and they come newest first.\<close>

lemma getTasksByUserId_rows:
  "task.truncate ` set (getTasksByUserId d userId search)
     = {t \<in> set (tasks d). ownerId t = userId \<and> matchesSearch search t}"
proof -
  have "task.truncate ` set (getTasksByUserId d userId search)
     = fst ` set (leftJoin (filter (\<lambda>t. ownerId t = userId \<and> matchesSearch search t) (tasks d))
             (users d) (\<lambda>t u. ownerId t = user_id u))"
    by (simp add: getTasksByUserId_filter image_image case_prod_beta truncate_withOwner)
  then show ?thesis by (simp add: fst_set_leftJoin)
qed

lemma getTasksByUserId_newest_first:
  "sorted_wrt (\<lambda>a b. task_createdAt b \<le> task_createdAt a) (getTasksByUserId d userId search)"
proof -
  let ?k = "\<lambda>(t :: task, u :: user option). - task_createdAt t"
  let ?J = "leftJoin (filter (\<lambda>t. ownerId t = userId \<and> matchesSearch search t) (tasks d))
             (users d) (\<lambda>t u. ownerId t = user_id u)"
  have "sorted (map ?k (sort_key ?k ?J))" by (rule sorted_sort_key)
  then have "sorted_wrt (\<lambda>a b. ?k a \<le> ?k b) (sort_key ?k ?J)"
    by (simp add: sorted_wrt_map)
  then show ?thesis
    by (simp add: getTasksByUserId_filter sorted_wrt_map case_prod_beta withOwner_def)
qed

text \<open>For a search term of plain characters the search condition is containment in the
  title or the description, case being ignored.\<close>

lemma matchesSearch_plain:
  assumes "list_all plain s" and "s \<noteq> []"
  shows "matchesSearch (Some s) t \<longleftrightarrow>
           containsIgnoreCase (title t) s \<or>
           (case description t of None \<Rightarrow> False | Some x \<Rightarrow> containsIgnoreCase x s)"
  using assms ilike_plain [OF assms(1)]
  by (simp add: matchesSearch_def truthy_def interpolate_def ilike_nullable_def
        split: option.splits)



section \<open>Storage: what the writes change\<close>

lemma createUser_Inr:
  "createUser d now u = (Inr row, d1) \<Longrightarrow>
     users d1 = users d @ [row] \<and> tasks d1 = tasks d \<and> taskShares d1 = taskShares d \<and>
     firebaseUid row = iu_firebaseUid u \<and> email row = iu_email u \<and>
     user_id row \<notin> user_id ` set (users d)"
  by (auto simp: createUser_def Let_def list_ex_iff split: if_splits)

lemma createTask_Inr:
  "createTask d now t = (Inr row, d1) \<Longrightarrow>
     tasks d1 = tasks d @ [row] \<and> ownerId row = it_ownerId t \<and>
     task_id row \<notin> task_id ` set (tasks d) \<and> int4 (task_id row)"
  by (auto simp: createTask_def Let_def list_ex_iff split: if_splits)

lemma createTask_getTaskById:
  assumes "createTask d now t = (Inr row, d1)"
  shows "map_sum id (map_option ownerId) (getTaskById d1 (task_id row))
           = Inr (Some (it_ownerId t))"
proof -
  from createTask_Inr [OF assms]
  have a: "tasks d1 = tasks d @ [row]" "ownerId row = it_ownerId t" "int4 (task_id row)"
    and n: "task_id row \<notin> task_id ` set (tasks d)" by auto
  from n have "filter (\<lambda>t. task_id t = task_id row) (tasks d) = []"
    by (auto simp: filter_empty_conv intro: rev_image_eqI)
  then show ?thesis by (simp add: getTaskById_first a withOwner_def)
qed

lemma shareTask_Inr:
  "shareTask d now s = (Inr row, d1) \<Longrightarrow>
     users d1 = users d \<and> tasks d1 = tasks d \<and> taskShares d1 = taskShares d @ [row] \<and>
     taskId row = is_taskId s \<and> sharedWithId row = is_sharedWithId s"
  by (auto simp: shareTask_def Let_def split: if_splits)

lemma updateTask_frame:
  "map (\<lambda>t. (task_id t, ownerId t)) (tasks (snd (updateTask d now i userId updates)))
     = map (\<lambda>t. (task_id t, ownerId t)) (tasks d)"
  "users (snd (updateTask d now i userId updates)) = users d"
  "taskShares (snd (updateTask d now i userId updates)) = taskShares d"
  by (auto simp: updateTask_def Let_def applyUpdates_def split: list.splits)




section \<open>The schema's constraints are kept by every write\<close>

lemma createUser_consistent:
  "consistent d \<Longrightarrow> consistent (snd (createUser d now u))"
  by (auto simp: createUser_def Let_def consistent_def list_ex_iff)

lemma createTask_consistent:
  "consistent d \<Longrightarrow> consistent (snd (createTask d now t))"
  by (auto simp: createTask_def Let_def consistent_def list_ex_iff list_all_iff)

lemma updateTask_consistent:
  assumes "consistent d"
  shows "consistent (snd (updateTask d now i userId updates))"
proof -
  let ?d1 = "snd (updateTask d now i userId updates)"
  have m: "map (\<lambda>t. (task_id t, ownerId t)) (tasks ?d1)
             = map (\<lambda>t. (task_id t, ownerId t)) (tasks d)"
    by (rule updateTask_frame)
  then have "map fst (map (\<lambda>t. (task_id t, ownerId t)) (tasks ?d1))
             = map fst (map (\<lambda>t. (task_id t, ownerId t)) (tasks d))"
    by (rule arg_cong)
  then have ids: "map task_id (tasks ?d1) = map task_id (tasks d)"
    by (simp add: comp_def)
  then have "task_id ` set (tasks ?d1) = task_id ` set (tasks d)"
    by (metis set_map)
  then have "list_ex (\<lambda>t. task_id t = k) (tasks ?d1) = list_ex (\<lambda>t. task_id t = k) (tasks d)"
    for k
    by (auto simp: list_ex_iff image_iff set_eq_iff) metis+
  with assms ids show ?thesis
    by (simp add: consistent_def updateTask_frame)
qed

lemma deleteTask_out_of_range:
  "\<not> int4 i \<Longrightarrow> deleteTask d i userId = (Inl OutOfRange, d)"
  by (simp add: deleteTask_def)

lemma deleteTask_consistent:
  assumes "consistent d"
  shows "consistent (snd (deleteTask d i userId))"
proof (cases "int4 i")
  case False
  with assms show ?thesis by (simp add: deleteTask_out_of_range)
next
  case True
  let ?hit = "\<lambda>t. task_id t = i \<and> ownerId t = userId"
  let ?res = "filter ?hit (tasks d)"
  let ?ts = "filter (\<lambda>t. \<not> ?hit t) (tasks d)"
  let ?ss = "filter (\<lambda>s. \<not> list_ex (\<lambda>t. task_id t = taskId s) ?res) (taskShares d)"
  from assms have du: "distinct (map user_id (users d))"
    and dt: "distinct (map task_id (tasks d))"
    and fk: "\<forall>s \<in> set (taskShares d). \<exists>t \<in> set (tasks d). task_id t = taskId s"
    by (auto simp: consistent_def list_all_iff list_ex_iff)
  have 1: "distinct (map task_id ?ts)"
    using dt by (rule distinct_map_filter)
  have 2: "list_ex (\<lambda>t. task_id t = taskId s) ?ts" if s: "s \<in> set ?ss" for s
  proof -
    from s have "s \<in> set (taskShares d)" by simp
    with fk obtain t where t: "t \<in> set (tasks d)" "task_id t = taskId s" by blast
    from s have "\<not> list_ex (\<lambda>t. task_id t = taskId s) ?res" by simp
    with t have "\<not> ?hit t" by (auto simp: list_ex_iff)
    with t show ?thesis by (auto simp: list_ex_iff)
  qed
  have d1: "snd (deleteTask d i userId) = d\<lparr>tasks := ?ts, taskShares := ?ss\<rparr>"
    using True by (simp add: deleteTask_def Let_def)
  show ?thesis
    unfolding d1 consistent_def using du 1 2 by (simp add: list_all_iff)
qed

lemma shareTask_consistent:
  "consistent d \<Longrightarrow> consistent (snd (shareTask d now s))"
  by (auto simp: shareTask_def Let_def consistent_def list_ex_iff list_all_iff)

lemma removeTaskShare_consistent:
  "consistent d \<Longrightarrow> consistent (snd (removeTaskShare d tid swid))"
  by (auto simp: removeTaskShare_def Let_def consistent_def list_all_iff)

lemmas example_defs =
  exampleDb_def userA_def userB_def report_def reportShare_def authA_def authB_def
  markCompleted_def newTask_def selfShare_def selfSharedDb_def

section \<open>The properties\<close>




text \<open>
  C4, as the code has it. For a task id in the range of the column \<^verbatim>\<open>tasks.id\<close>,
  \<^verbatim>\<open>deleteTask(id, userId)\<close> returns whether a task with that id and that owner existed,
  and removes exactly those tasks; when there is none, also when a task with the id
  exists and belongs to somebody else, it returns \<^verbatim>\<open>false\<close> and the database is as
  it was. For an id outside the range it throws the database's range error and the
  database is as it was.
\<close>

theorem deleteTask_owner_only:
  "(int4 i \<longrightarrow>
      fst (deleteTask d i userId)
        = Inr (list_ex (\<lambda>t. task_id t = i \<and> ownerId t = userId) (tasks d))
      \<and> tasks (snd (deleteTask d i userId))
          = filter (\<lambda>t. \<not> (task_id t = i \<and> ownerId t = userId)) (tasks d)
      \<and> (\<not> list_ex (\<lambda>t. task_id t = i \<and> ownerId t = userId) (tasks d) \<longrightarrow>
           deleteTask d i userId = (Inr False, d)))
   \<and> (\<not> int4 i \<longrightarrow> deleteTask d i userId = (Inl OutOfRange, d))"
proof (intro conjI impI)
  assume r: "int4 i"
  show "fst (deleteTask d i userId)
          = Inr (list_ex (\<lambda>t. task_id t = i \<and> ownerId t = userId) (tasks d))"
    using r by (auto simp: deleteTask_def Let_def list_ex_iff filter_empty_conv)
  show "tasks (snd (deleteTask d i userId))
          = filter (\<lambda>t. \<not> (task_id t = i \<and> ownerId t = userId)) (tasks d)"
    using r by (simp add: deleteTask_def Let_def)
next
  assume r: "int4 i"
     and n: "\<not> list_ex (\<lambda>t. task_id t = i \<and> ownerId t = userId) (tasks d)"
  from n have f: "filter (\<lambda>t. task_id t = i \<and> ownerId t = userId) (tasks d) = []"
    by (auto simp: list_ex_iff filter_empty_conv)
  have g: "filter (\<lambda>t. \<not> (task_id t = i \<and> ownerId t = userId)) (tasks d) = tasks d"
    using n by (auto simp: list_ex_iff filter_id_conv)
  have "(let hit = (\<lambda>t. task_id t = i \<and> ownerId t = userId);
             result = filter hit (tasks d);
             d1 = d\<lparr>tasks := filter (\<lambda>t. \<not> hit t) (tasks d),
                    taskShares := filter (\<lambda>s. \<not> list_ex (\<lambda>t. task_id t = taskId s) result)
                                    (taskShares d)\<rparr>
         in (Inr (length result > 0) :: db_error + bool, d1)) = (Inr False, d)"
    unfolding Let_def f g by simp
  with r show "deleteTask d i userId = (Inr False, d)"
    by (simp add: deleteTask_def)
next
  assume "\<not> int4 i"
  then show "deleteTask d i userId = (Inl OutOfRange, d)"
    by (rule deleteTask_out_of_range)
qed

theorem deleteTask_owner_only_witness:
  "deleteTask exampleDb 1 2 = (Inr False, exampleDb)
   \<and> fst (deleteTask exampleDb 1 1) = Inr True \<and> tasks (snd (deleteTask exampleDb 1 1)) = []
   \<and> deleteTask exampleDb (- 2147483649) 1 = (Inl OutOfRange, exampleDb)"
  using deleteTask_owner_only [of 1 exampleDb 2] deleteTask_owner_only [of 1 exampleDb 1]
        deleteTask_owner_only [of "- 2147483649" exampleDb 1]
  by (simp add: int4_def exampleDb_def report_def)

text \<open>C4, as the claim has it, fails at a task id beyond the column's range: the caller
  owns no task with the id 2147483648, and the call throws the database's range error
  instead of returning \<^verbatim>\<open>false\<close>.\<close>

theorem deleteTask_id_range_counterexample:
  "\<not> list_ex (\<lambda>t. task_id t = 2147483648 \<and> ownerId t = 1) (tasks exampleDb)
   \<and> deleteTask exampleDb 2147483648 1 = (Inl OutOfRange, exampleDb)
   \<and> fst (deleteTask exampleDb 2147483648 1) \<noteq> Inr False"
  by (simp add: deleteTask_def int4_def exampleDb_def report_def)

text \<open>
  C5. After \<^verbatim>\<open>deleteTask\<close> has removed a task, no share refers to the task's id:
  \<^verbatim>\<open>getTaskShares\<close> for it is empty and the table \<^verbatim>\<open>task_shares\<close> holds no row with
  that \<^verbatim>\<open>taskId\<close>.
\<close>

theorem deleteTask_cascades:
  assumes "fst (deleteTask d i userId) = Inr True"
  shows "getTaskShares (snd (deleteTask d i userId)) i = [] \<and>
         \<not> list_ex (\<lambda>s. taskId s = i) (taskShares (snd (deleteTask d i userId)))"
proof -
  from assms have r: "int4 i"
    by (auto simp: deleteTask_def split: if_splits)
  with assms obtain t where "t \<in> set (tasks d)" "task_id t = i" "ownerId t = userId"
    by (auto simp: deleteTask_def Let_def filter_empty_conv)
  with r have "\<not> list_ex (\<lambda>s. taskId s = i) (taskShares (snd (deleteTask d i userId)))"
    by (auto simp: deleteTask_def Let_def list_ex_iff)
  then show ?thesis by (simp add: getTaskShares_empty_iff)
qed

theorem deleteTask_cascades_witness:
  "getTaskShares exampleDb 1 \<noteq> [] \<and> fst (deleteTask exampleDb 1 1) = Inr True \<and>
   getTaskShares (snd (deleteTask exampleDb 1 1)) 1 = [] \<and>
   \<not> list_ex (\<lambda>s. taskId s = 1) (taskShares (snd (deleteTask exampleDb 1 1)))"
proof -
  have h: "fst (deleteTask exampleDb 1 1) = Inr True"
    by (simp add: deleteTask_def Let_def int4_def exampleDb_def report_def)
  have "getTaskShares exampleDb 1 \<noteq> []"
    by (simp add: getTaskShares_empty_iff exampleDb_def reportShare_def)
  with h deleteTask_cascades [OF h] show ?thesis by simp
qed

text \<open>
  C6. No sequence of calls of \<^verbatim>\<open>updateTask\<close>, successful or not, by whichever caller and
  with whichever patches, changes the \<^verbatim>\<open>ownerId\<close> that \<^verbatim>\<open>getTaskById\<close> returns for a
  task id; for a task that \<^verbatim>\<open>createTask\<close> has just inserted it stays the
  \<^verbatim>\<open>ownerId\<close> the task was created with.
\<close>

theorem updateTasks_ownerId_unchanged:
  "map_sum id (map_option ownerId) (getTaskById (updateTasks d calls) i)
     = map_sum id (map_option ownerId) (getTaskById d i)
   \<and> (createTask d0 now t = (Inr row, d) \<longrightarrow>
        map_sum id (map_option ownerId) (getTaskById (updateTasks d calls) (task_id row))
          = Inr (Some (it_ownerId t)))"
proof -
  have inv: "map_sum id (map_option ownerId) (getTaskById (updateTasks d calls) j)
          = map_sum id (map_option ownerId) (getTaskById d j)" for j
  proof (induction d calls rule: updateTasks.induct)
    case (1 d)
    show ?case by simp
  next
    case (2 d now k userId updates calls)
    have "map_sum id (map_option ownerId) (getTaskById (snd (updateTask d now k userId updates)) j)
            = map_sum id (map_option ownerId) (getTaskById d j)"
      by (simp only: getTaskById_ownerId updateTask_frame)
    with 2 show ?case by (simp only: updateTasks.simps)
  qed
  show ?thesis
  proof (intro conjI impI)
    show "map_sum id (map_option ownerId) (getTaskById (updateTasks d calls) i)
            = map_sum id (map_option ownerId) (getTaskById d i)"
      by (rule inv)
  next
    assume c: "createTask d0 now t = (Inr row, d)"
    show "map_sum id (map_option ownerId) (getTaskById (updateTasks d calls) (task_id row))
            = Inr (Some (it_ownerId t))"
      by (simp only: inv createTask_getTaskById [OF c])
  qed
qed

theorem updateTasks_ownerId_unchanged_witness:
  "createTask exampleDb 50 newTask
     = (Inr \<lparr>task_id = 2, title = ''Plan trip'', description = Some ''by rail'',
             status = todo, priority = medium, dueDate = None, task_createdAt = 50,
             updatedAt = 50, ownerId = 2\<rparr>, snd (createTask exampleDb 50 newTask))
   \<and> map_sum id (map_option ownerId)
       (getTaskById (updateTasks (snd (createTask exampleDb 50 newTask))
                       [(60, 2, 2, markCompleted), (70, 2, 1, markCompleted)]) 2)
     = Inr (Some 2)"
proof -
  let ?row = "\<lparr>task_id = 2, title = ''Plan trip'', description = Some ''by rail'',
             status = todo, priority = medium, dueDate = None, task_createdAt = 50,
             updatedAt = 50, ownerId = 2\<rparr>"
  have c: "createTask exampleDb 50 newTask = (Inr ?row, snd (createTask exampleDb 50 newTask))"
    by (simp add: createTask_def Let_def int4_def example_defs)
  let ?calls = "[(60, 2, 2, markCompleted), (70, 2, 1, markCompleted)]"
  from updateTasks_ownerId_unchanged
         [of "snd (createTask exampleDb 50 newTask)" ?calls 2 exampleDb 50 newTask ?row] c
  have "map_sum id (map_option ownerId)
          (getTaskById (updateTasks (snd (createTask exampleDb 50 newTask)) ?calls)
             (task_id ?row)) = Inr (Some (it_ownerId newTask))"
    by blast
  moreover have "task_id ?row = 2" "it_ownerId newTask = 2"
    by (simp_all add: newTask_def)
  ultimately have "map_sum id (map_option ownerId)
          (getTaskById (updateTasks (snd (createTask exampleDb 50 newTask)) ?calls) 2)
        = Inr (Some 2)"
    by (simp only:)
  with c show ?thesis by (intro conjI)
qed

section \<open>Routes: resolving the caller and the recipient\<close>

lemma getOrCreateUser_frame:
  "getOrCreateUser d now fuid mail dname = (r, d1) \<Longrightarrow>
     tasks d1 = tasks d \<and> taskShares d1 = taskShares d"
  by (auto simp: getOrCreateUser_def createUser_def Let_def split: option.splits if_splits)

lemma getOrCreateUser_found:
  assumes "getOrCreateUser d now fuid mail dname = (Inr u, d1)"
  shows "getUserByFirebaseUid d1 fuid = Some u"
proof (cases "getUserByFirebaseUid d fuid")
  case (Some u')
  with assms show ?thesis by (simp add: getOrCreateUser_def)
next
  case None
  with assms have c: "createUser d now \<lparr>iu_firebaseUid = fuid, iu_email = mail,
             iu_displayName = (case dname of None \<Rightarrow> None
                               | Some n \<Rightarrow> if n = [] then None else Some n)\<rparr> = (Inr u, d1)"
    by (simp add: getOrCreateUser_def)
  from createUser_Inr [OF c] None show ?thesis
    by (simp add: getUserByFirebaseUid_first first_append first_single)
qed

lemma getOrCreateUser_existing:
  "getUserByFirebaseUid d fuid = Some u \<Longrightarrow>
     getOrCreateUser d now fuid mail dname = (Inr u, d)"
  by (simp add: getOrCreateUser_def)


lemma getUserByFirebaseUid_append:
  "getUserByFirebaseUid d f = Some u \<Longrightarrow> users d' = users d @ xs \<Longrightarrow>
     getUserByFirebaseUid d' f = Some u"
  by (simp add: getUserByFirebaseUid_first first_append)

lemma recipient_found:
  assumes "(case getUserByEmail d mail of
              Some u \<Rightarrow> (Inr u, d)
            | None \<Rightarrow> createUser d now
                        \<lparr>iu_firebaseUid = f, iu_email = mail, iu_displayName = None\<rparr>)
           = (Inr sw, d2)"
  shows "getUserByEmail d2 mail = Some sw \<and> tasks d2 = tasks d \<and>
         taskShares d2 = taskShares d \<and> (\<exists>xs. users d2 = users d @ xs)"
proof (cases "getUserByEmail d mail")
  case (Some u)
  with assms show ?thesis by simp
next
  case None
  with assms have c: "createUser d now
      \<lparr>iu_firebaseUid = f, iu_email = mail, iu_displayName = None\<rparr> = (Inr sw, d2)"
    by simp
  from createUser_Inr [OF c] None show ?thesis
    by (simp add: getUserByEmail_first first_append first_single)
qed

text \<open>A share request for a task that is already shared with the recipient is refused
  and writes nothing.\<close>

lemma shareTaskRoute_alreadyShared:
  assumes g: "getOrCreateUser d now (uid ru) (au_email ru) (name ru) = (Inr usr, d1)"
      and p: "parse body = Inr sd"
      and t: "getTaskById d1 (sr_taskId sd) = Inr (Some t)" "ownerId t = user_id usr"
      and e: "getUserByEmail d1 (sr_email sd) = Some sw"
      and a: "list_ex (\<lambda>s. taskId s = sr_taskId sd \<and> sharedWithId s = user_id sw)
                (taskShares d1)"
  shows "shareTaskRoute parse d now ru body
           = (Message 400 ''Task is already shared with this user'', d1)"
  using a by (simp add: shareTaskRoute_def g p t e Let_def getTaskShares_sharedWithId)

section \<open>The properties of the routes\<close>

lemma exampleDb_callerA:
  "getOrCreateUser exampleDb now (uid authA) (au_email authA) (name authA) = (Inr userA, exampleDb)"
  by (simp add: getOrCreateUser_def getUserByFirebaseUid_first first_def example_defs)

lemma exampleDb_callerB:
  "getOrCreateUser exampleDb now (uid authB) (au_email authB) (name authB) = (Inr userB, exampleDb)"
  by (simp add: getOrCreateUser_def getUserByFirebaseUid_first first_def example_defs)

lemma exampleDb_callerC:
  "getOrCreateUser exampleDb 50 (uid authC) (au_email authC) (name authC)
     = (Inr userC, exampleDbC)"
  by (simp add: getOrCreateUser_def getUserByFirebaseUid_first first_def createUser_def
        Let_def int4_def example_defs authC_def userC_def exampleDbC_def)

lemma exampleDb_report:
  "getTaskById exampleDb 1
     = Inr (Some (withOwner report (Some userA) [withSharedWith reportShare (Some userB)]))"
  by (simp add: getTaskById_first getTaskShares_def leftJoin_def first_def Let_def
        int4_def example_defs)

lemma exampleDbC_report:
  "getTaskById exampleDbC 1
     = Inr (Some (withOwner report (Some userA) [withSharedWith reportShare (Some userB)]))"
  by (simp add: getTaskById_first getTaskShares_def leftJoin_def first_def Let_def
        int4_def example_defs exampleDbC_def userC_def)

text \<open>
  C2. \<^verbatim>\<open>GET /api/tasks/:id\<close>, for a caller the route has resolved and a task that
  exists: the answer is the task with status 200 when the caller is the task's owner or
  a share of the task names the caller as recipient, and 403 "Access denied" otherwise.
\<close>

theorem getTaskRoute_access:
  assumes g: "getOrCreateUser d now (uid ru) (au_email ru) (name ru) = (Inr usr, d1)"
      and t: "getTaskById d1 tid = Inr (Some t)"
  shows "getTaskRoute d now ru tid =
           (if ownerId t = user_id usr \<or>
               list_ex (\<lambda>s. taskId s = tid \<and> sharedWithId s = user_id usr) (taskShares d)
            then (Json 200 t, d1) else (Message 403 ''Access denied'', d1))"
proof -
  have sh: "shares t = getTaskShares d1 tid"
    using t by (auto simp: getTaskById_first withOwner_def split: list.splits if_splits)
  have "list_ex (\<lambda>share. sharedWithId share = user_id usr) (shares t)
        = list_ex (\<lambda>s. taskId s = tid \<and> sharedWithId s = user_id usr) (taskShares d)"
    using getOrCreateUser_frame [OF g] by (simp add: sh getTaskShares_sharedWithId)
  then show ?thesis
    by (simp add: getTaskRoute_def g t Let_def)
qed

theorem getTaskRoute_access_witness:
  "getTaskRoute exampleDb 50 authA 1
     = (Json 200 (withOwner report (Some userA) [withSharedWith reportShare (Some userB)]),
        exampleDb)
   \<and> getTaskRoute exampleDb 50 authB 1
     = (Json 200 (withOwner report (Some userA) [withSharedWith reportShare (Some userB)]),
        exampleDb)
   \<and> getTaskRoute exampleDb 50 authC 1 = (Message 403 ''Access denied'', exampleDbC)"
  using getTaskRoute_access [OF exampleDb_callerA [of 50] exampleDb_report]
        getTaskRoute_access [OF exampleDb_callerB [of 50] exampleDb_report]
        getTaskRoute_access [OF exampleDb_callerC exampleDbC_report]
  by (simp add: withOwner_def example_defs userC_def)




text \<open>
  C3. When \<^verbatim>\<open>POST /api/tasks/share\<close> has shared a task with a recipient (201), a
  later request by the same caller for the same task and the same recipient address,
  with whichever permission and at whichever time, is answered 400 "Task is already
  shared with this user", the error the code raises for the conflict, and leaves the
  whole database, so the table of shares, as it was.
\<close>

theorem shareTaskRoute_duplicate_rejected:
  assumes ok: "shareTaskRoute parse d now ru body = (Json 201 share, d')"
      and p: "parse body = Inr sd"
      and p': "parse body' = Inr sd'"
      and same: "sr_taskId sd' = sr_taskId sd" "sr_email sd' = sr_email sd"
  shows "shareTaskRoute parse d' now' ru body' =
           (Message 400 ''Task is already shared with this user'', d')"
proof -
  obtain usr d1 where g: "getOrCreateUser d now (uid ru) (au_email ru) (name ru) = (Inr usr, d1)"
    using ok by (auto simp: shareTaskRoute_def split: prod.splits sum.splits)
  let ?tid = "sr_taskId sd" and ?mail = "sr_email sd"
  obtain t where t: "getTaskById d1 ?tid = Inr (Some t)" "ownerId t = user_id usr"
    using ok
    by (auto simp: shareTaskRoute_def g p Let_def split: sum.splits option.splits if_splits)
  let ?res = "case getUserByEmail d1 ?mail of
                Some u \<Rightarrow> (Inr u, d1)
              | None \<Rightarrow> createUser d1 now
                  \<lparr>iu_firebaseUid = ''placeholder_'' @ numberToString now @ ''_'' @ ?mail,
                   iu_email = ?mail, iu_displayName = None\<rparr>"
  obtain sw d2 where r: "?res = (Inr sw, d2)"
    using ok t unfolding shareTaskRoute_def g p Let_def
    by (cases ?res) (auto split: sum.splits)
  have s: "shareTask d2 now \<lparr>is_taskId = ?tid, is_sharedWithId = user_id sw,
              is_permission = Some (sr_permission sd)\<rparr> = (Inr share, d')"
    using ok t r unfolding shareTaskRoute_def g p Let_def
    by (auto split: sum.splits prod.splits if_splits)
  note R = recipient_found [OF r]
  note S = shareTask_Inr [OF s]
  from R obtain xs where xs: "users d2 = users d1 @ xs" by blast
  have u': "users d' = users d1 @ xs" using S xs by simp
  have g': "getOrCreateUser d' now' (uid ru) (au_email ru) (name ru) = (Inr usr, d')"
    by (rule getOrCreateUser_existing)
       (rule getUserByFirebaseUid_append [OF getOrCreateUser_found [OF g] u'])
  have "tasks d' = tasks d1" using R S by simp
  from getTaskById_owner_tasks [OF this t(1)] t(2)
  obtain t' where t': "getTaskById d' (sr_taskId sd') = Inr (Some t')"
                      "ownerId t' = user_id usr"
    by (auto simp: same)
  have e': "getUserByEmail d' (sr_email sd') = Some sw"
    using R S by (simp add: getUserByEmail_first same)
  have a': "list_ex (\<lambda>s. taskId s = sr_taskId sd' \<and> sharedWithId s = user_id sw)
              (taskShares d')"
    using S by (simp add: same)
  show ?thesis
    by (rule shareTaskRoute_alreadyShared
              [where parse = parse and body = body', OF g' p' t' e' a'])
qed

theorem shareTaskRoute_duplicate_rejected_witness:
  "fst (shareTaskRoute Inr exampleDb 50 authA shareWithD)
     = Json 201 \<lparr>share_id = 2, taskId = 1, sharedWithId = 3, permission = edit,
                 share_createdAt = 50\<rparr>
   \<and> shareTaskRoute Inr (snd (shareTaskRoute Inr exampleDb 50 authA shareWithD)) 60 authA
         shareWithDAgain
     = (Message 400 ''Task is already shared with this user'',
        snd (shareTaskRoute Inr exampleDb 50 authA shareWithD))"
proof -
  let ?share = "\<lparr>share_id = 2, taskId = 1, sharedWithId = 3, permission = edit,
                 share_createdAt = 50\<rparr>"
  have f: "fst (shareTaskRoute Inr exampleDb 50 authA shareWithD) = Json 201 ?share"
    by (simp add: shareTaskRoute_def getOrCreateUser_def getUserByFirebaseUid_first
          getTaskById_first withOwner_def getUserByEmail_first first_def createUser_def
          shareTask_def Let_def getTaskShares_sharedWithId int4_def example_defs
          shareWithD_def)
  then have ok: "shareTaskRoute Inr exampleDb 50 authA shareWithD
                   = (Json 201 ?share, snd (shareTaskRoute Inr exampleDb 50 authA shareWithD))"
    by (simp add: prod_eq_iff)
  have same: "sr_taskId shareWithDAgain = sr_taskId shareWithD"
             "sr_email shareWithDAgain = sr_email shareWithD"
    by (simp_all add: shareWithD_def shareWithDAgain_def)
  from f shareTaskRoute_duplicate_rejected [OF ok refl refl same, of 60]
  show ?thesis by simp
qed




text \<open>
  C10. The empty string as search term is the absent search term:
  \<^verbatim>\<open>getTasksByUserId(userId, "")\<close> returns what \<^verbatim>\<open>getTasksByUserId(userId)\<close> returns,
  and its rows are the tasks of the owner, all of them and no other.
\<close>

theorem getTasksByUserId_empty_search:
  "getTasksByUserId d userId (Some []) = getTasksByUserId d userId None
   \<and> task.truncate ` set (getTasksByUserId d userId (Some []))
       = {t \<in> set (tasks d). ownerId t = userId}"
proof
  show "getTasksByUserId d userId (Some []) = getTasksByUserId d userId None"
    by (simp add: getTasksByUserId_def truthy_def)
  show "task.truncate ` set (getTasksByUserId d userId (Some []))
          = {t \<in> set (tasks d). ownerId t = userId}"
    by (simp add: getTasksByUserId_rows matchesSearch_def truthy_def)
qed

theorem getTasksByUserId_empty_search_witness:
  "getTasksByUserId exampleDb 1 (Some []) = getTasksByUserId exampleDb 1 None
   \<and> task.truncate ` set (getTasksByUserId exampleDb 1 (Some [])) = {report}"
proof -
  have e: "{t \<in> set (tasks exampleDb). ownerId t = 1} = {report}"
    by (auto simp: example_defs)
  note T = getTasksByUserId_empty_search [of exampleDb 1]
  show ?thesis
    by (rule conjI [OF conjunct1 [OF T] trans [OF conjunct2 [OF T] e]])
qed

text \<open>
  C7 fails on a search term that holds a character with a meaning in a \<^verbatim>\<open>LIKE\<close>
  pattern, since the term is put into the pattern as it is: the search for an underscore
  returns the task "Write report", which has no description and no underscore in its
  title.
\<close>

theorem getTasksByUserId_underscore_search:
  "map task_id (getTasksByUserId exampleDb 1 (Some ''_'')) = [1]
   \<and> title report = ''Write report'' \<and> description report = None
   \<and> \<not> containsIgnoreCase (title report) ''_''"
  by code_simp

end
